theory Spec2Isabelle
  imports
    Main
    "HOL-Library.Word"
    "HOL-Library.Char_ord"
    "HOL-Library.List_Lexorder"
    "HOL-Library.Multiset"
begin

section \<open>The password vault of \<open>src/core/PassWordVault.cpp\<close>\<close>

text \<open>
  The vault is a C++ class over one SQLite connection. Strings are \<open>std::string\<close>
  (byte sequences, \<^typ>\<open>string\<close> here), \<open>int\<close> is a 32-bit machine integer
  (\<^typ>\<open>32 word\<close>, read with \<^const>\<open>sint\<close>), exceptions are values of the
  type \<open>error\<close>, and the connection is a record that every operation takes and
  returns.
\<close>

subsection \<open>Values of the program\<close>

type_synonym cint = "32 word"

datatype error = invalid_argument string | runtime_error string

text \<open>
  The structs \<open>PasswordVault::Codebook\<close> and \<open>PasswordVault::PasswordEntry\<close> are
  declared in \<open>PassWordVault.h\<close>, which is not among the sources; their fields are the ones
  that \<open>GetUserCodebooks\<close> and \<open>GetEntries\<close> assign (\<open>id\<close>, \<open>name\<close>,
  \<open>created_time\<close>, ...), prefixed here to keep them apart.
\<close>

record Codebook =
  cb_id :: cint
  cb_name :: string
  cb_created_time :: string


subsection \<open>The store: the two tables and the connection\<close>

text \<open>
  Modelled from the spec: the persisted schema, which no source file declares.
  \<open>Codebook(codebook_id PK, username, codebook_name, created_time)\<close>, unique on
  \<open>(username, codebook_name)\<close>, and \<open>PasswordEntry(entry_id PK, codebook_id FK, address,
  public_key, encrypted_password, notes, created_time)\<close>. A table is the list of its rows
  in insertion order; row ids are SQLite's 64-bit integers (\<^typ>\<open>int\<close> here).
\<close>

record codebook_row =
  codebook_id :: int
  username :: string
  codebook_name :: string
  created_time :: string

record entry_row =
  entry_id :: int
  entry_codebook_id :: int
  address :: string
  public_key :: string
  encrypted_password :: string
  entry_notes :: string
  entry_created_time :: string

text \<open>
  The SQLite library is outside the repository. Its calls are modelled on the connection
  record: each call of \<open>sqlite3_prepare_v2\<close>, \<open>sqlite3_step\<close> and \<open>sqlite3_exec\<close> is
  appended to \<open>calls\<close>, and takes its outcome from the head of \<open>faults\<close>, the failures the
  environment forces (an exhausted list means no forced failure). A call that fails has no
  effect on the tables. \<open>txn\<close> is the snapshot a \<open>ROLLBACK\<close> restores, \<open>nchanges\<close> is
  what \<open>sqlite3_changes\<close> reads, \<open>now\<close> is the store's clock (the default of the
  \<open>created_time\<close> columns).
\<close>

datatype outcome = Ok | Fail string

datatype rc = SQLITE_OK | SQLITE_ERROR | SQLITE_ROW | SQLITE_DONE

datatype tx_cmd = BEGIN_TRANSACTION | COMMIT | ROLLBACK

datatype api_call = Prepare | Step | Exec tx_cmd

record db =
  Codebook_tbl :: "codebook_row list"
  PasswordEntry_tbl :: "entry_row list"
  txn :: "(codebook_row list \<times> entry_row list) option"
  nchanges :: int
  errmsg :: string
  now :: string
  faults :: "outcome list"
  calls :: "api_call list"

definition attempt :: "api_call \<Rightarrow> db \<Rightarrow> bool \<times> db" where
  "attempt c d =
     (case faults d of
        [] \<Rightarrow> (True, d\<lparr>errmsg := ''not an error'', calls := calls d @ [c]\<rparr>)
      | Ok # fs \<Rightarrow>
          (True, d\<lparr>errmsg := ''not an error'', faults := fs, calls := calls d @ [c]\<rparr>)
      | Fail m # fs \<Rightarrow> (False, d\<lparr>errmsg := m, faults := fs, calls := calls d @ [c]\<rparr>))"

definition sqlite3_errmsg :: "db \<Rightarrow> string" where
  "sqlite3_errmsg d = errmsg d"

definition sqlite3_changes :: "db \<Rightarrow> int" where
  "sqlite3_changes d = nchanges d"

definition sqlite3_prepare_v2 :: "db \<Rightarrow> rc \<times> db" where
  "sqlite3_prepare_v2 d =
     (case attempt Prepare d of (ok, d1) \<Rightarrow> (if ok then SQLITE_OK else SQLITE_ERROR, d1))"

text \<open>
  \<open>sqlite3_bind_text(stmt, i, s.c_str(), -1, SQLITE_STATIC)\<close> binds the bytes of
  \<open>s\<close> up to its first NUL: with length \<open>-1\<close> SQLite reads a C string. The same holds
  for the \<open>std::string\<close> built from \<open>sqlite3_column_text\<close>.
\<close>

definition c_str :: "string \<Rightarrow> string" where
  "c_str s = takeWhile (\<lambda>c. c \<noteq> CHR 0x00) s"

text \<open>A new row gets the next row id: one more than the largest, 1 in an empty table.\<close>

definition fresh_id :: "int list \<Rightarrow> int" where
  "fresh_id ids = (case ids of [] \<Rightarrow> 1 | i # js \<Rightarrow> foldr max js i + 1)"

text \<open>The statements of the program, with their bound parameters.\<close>

datatype stmt =
    InsertCodebook string string
  | DeleteEntries int
  | DeleteCodebookRow int
  | InsertEntry int string string string string
  | UpdateEntryRow string string string string int

fun run_stmt :: "stmt \<Rightarrow> db \<Rightarrow> db" where
  "run_stmt (InsertCodebook u n) d =
     (if \<exists>r \<in> set (Codebook_tbl d). username r = u \<and> codebook_name r = n
      then d\<lparr>nchanges := 0\<rparr>
      else d\<lparr>Codebook_tbl := Codebook_tbl d @
                [\<lparr>codebook_id = fresh_id (map codebook_id (Codebook_tbl d)), username = u,
                  codebook_name = n, created_time = now d\<rparr>],
             nchanges := 1\<rparr>)"
| "run_stmt (DeleteEntries cid) d =
     d\<lparr>PasswordEntry_tbl := filter (\<lambda>r. entry_codebook_id r \<noteq> cid) (PasswordEntry_tbl d),
       nchanges := int (length (filter (\<lambda>r. entry_codebook_id r = cid) (PasswordEntry_tbl d)))\<rparr>"
| "run_stmt (DeleteCodebookRow cid) d =
     d\<lparr>Codebook_tbl := filter (\<lambda>r. codebook_id r \<noteq> cid) (Codebook_tbl d),
       nchanges := int (length (filter (\<lambda>r. codebook_id r = cid) (Codebook_tbl d)))\<rparr>"
| "run_stmt (InsertEntry cid a p e n) d =
     d\<lparr>PasswordEntry_tbl := PasswordEntry_tbl d @
          [\<lparr>entry_id = fresh_id (map entry_id (PasswordEntry_tbl d)), entry_codebook_id = cid,
            address = a, public_key = p, encrypted_password = e, entry_notes = n,
            entry_created_time = now d\<rparr>],
       nchanges := 1\<rparr>"
| "run_stmt (UpdateEntryRow a p e n eid) d =
     d\<lparr>PasswordEntry_tbl :=
          map (\<lambda>r. if entry_id r = eid
                    then r\<lparr>address := a, public_key := p, encrypted_password := e, entry_notes := n\<rparr>
                    else r)
            (PasswordEntry_tbl d),
       nchanges := int (length (filter (\<lambda>r. entry_id r = eid) (PasswordEntry_tbl d)))\<rparr>"

text \<open>\<open>sqlite3_step\<close> on a writing statement: \<open>SQLITE_DONE\<close> and the effect, or an error
  and no effect.\<close>

definition sqlite3_step :: "stmt \<Rightarrow> db \<Rightarrow> rc \<times> db" where
  "sqlite3_step s d =
     (case attempt Step d of (ok, d1) \<Rightarrow>
        if ok then (SQLITE_DONE, run_stmt s d1) else (SQLITE_ERROR, d1))"

text \<open>\<open>sqlite3_step\<close> on a query with the rows \<open>pending\<close> still to be returned:
  \<open>SQLITE_ROW\<close> while there is one, \<open>SQLITE_DONE\<close> after the last, or an error.\<close>

definition sqlite3_step_query :: "'r list \<Rightarrow> db \<Rightarrow> rc \<times> db" where
  "sqlite3_step_query pending d =
     (case attempt Step d of (ok, d1) \<Rightarrow>
        (if \<not> ok then SQLITE_ERROR else if pending = [] then SQLITE_DONE else SQLITE_ROW, d1))"

text \<open>
  \<open>while (sqlite3_step(stmt) == SQLITE_ROW) { ... push_back ... }\<close> over the rows a
  query selects: each step yields the next row, the step after the last row yields
  \<open>SQLITE_DONE\<close>, and a step that fails ends the loop as well.
\<close>

fun fetch_rows :: "'r list \<Rightarrow> db \<Rightarrow> 'r list \<times> db" where
  "fetch_rows [] d = (case sqlite3_step_query ([] :: 'r list) d of (r, d1) \<Rightarrow> ([], d1))"
| "fetch_rows (x # xs) d =
     (case sqlite3_step_query (x # xs) d of (r, d1) \<Rightarrow>
        if r = SQLITE_ROW then (case fetch_rows xs d1 of (out, d2) \<Rightarrow> (x # out, d2))
        else ([], d1))"

text \<open>\<open>sqlite3_exec\<close> of the three transaction commands.\<close>

definition sqlite3_exec :: "tx_cmd \<Rightarrow> db \<Rightarrow> rc \<times> db" where
  "sqlite3_exec cmd d =
     (case attempt (Exec cmd) d of (ok, d1) \<Rightarrow>
        if \<not> ok then (SQLITE_ERROR, d1)
        else (case cmd of
            BEGIN_TRANSACTION \<Rightarrow>
              (case txn d1 of
                 None \<Rightarrow>
                   (SQLITE_OK, d1\<lparr>txn := Some (Codebook_tbl d1, PasswordEntry_tbl d1)\<rparr>)
               | Some snap \<Rightarrow>
                   (SQLITE_ERROR,
                    d1\<lparr>errmsg := ''cannot start a transaction within a transaction''\<rparr>))
          | COMMIT \<Rightarrow>
              (case txn d1 of
                 None \<Rightarrow>
                   (SQLITE_ERROR, d1\<lparr>errmsg := ''cannot commit - no transaction is active''\<rparr>)
               | Some snap \<Rightarrow> (SQLITE_OK, d1\<lparr>txn := None\<rparr>))
          | ROLLBACK \<Rightarrow>
              (case txn d1 of
                 None \<Rightarrow>
                   (SQLITE_ERROR,
                    d1\<lparr>errmsg := ''cannot rollback - no transaction is active''\<rparr>)
               | Some snap \<Rightarrow>
                   (SQLITE_OK,
                    d1\<lparr>Codebook_tbl := fst snap, PasswordEntry_tbl := snd snap,
                       txn := None\<rparr>))))"

subsection \<open>Pattern matching and ordering of the store\<close>









definition select_one :: "int \<Rightarrow> db \<Rightarrow> int list" where
  "select_one cid d = map (\<lambda>r. 1) (filter (\<lambda>r. codebook_id r = cid) (Codebook_tbl d))"

subsection \<open>The operations of \<open>PasswordVault\<close>\<close>

text \<open>The constructor refuses a null connection.\<close>

definition PasswordVault :: "db option \<Rightarrow> error + db" where
  "PasswordVault conn =
     (case conn of
        None \<Rightarrow> Inl (invalid_argument ''Invalid database connection'')
      | Some d \<Rightarrow> Inr d)"

text \<open>\<open>isalnum\<close> in the C locale, which is the locale of a program that never calls
  \<open>setlocale\<close>.\<close>

definition isalnum :: "char \<Rightarrow> bool" where
  "isalnum c =
     ((CHR ''0'' \<le> c \<and> c \<le> CHR ''9'') \<or> (CHR ''A'' \<le> c \<and> c \<le> CHR ''Z'') \<or>
      (CHR ''a'' \<le> c \<and> c \<le> CHR ''z''))"

definition ValidateCodebookName :: "string \<Rightarrow> bool" where
  "ValidateCodebookName name =
     (name \<noteq> [] \<and> length name \<le> 100 \<and>
      list_all (\<lambda>c. isalnum c \<or> c = CHR '' '' \<or> c = CHR ''-'' \<or> c = CHR ''_'') name)"

definition BeginTransaction :: "db \<Rightarrow> bool \<times> db" where
  "BeginTransaction d =
     (case sqlite3_exec BEGIN_TRANSACTION d of (r, d1) \<Rightarrow> (r = SQLITE_OK, d1))"

definition CommitTransaction :: "db \<Rightarrow> bool \<times> db" where
  "CommitTransaction d = (case sqlite3_exec COMMIT d of (r, d1) \<Rightarrow> (r = SQLITE_OK, d1))"

definition RollbackTransaction :: "db \<Rightarrow> bool \<times> db" where
  "RollbackTransaction d = (case sqlite3_exec ROLLBACK d of (r, d1) \<Rightarrow> (r = SQLITE_OK, d1))"

text \<open>\<open>SELECT 1 FROM Codebook WHERE codebook_id = ?\<close>, stepped once.\<close>

definition CheckCodebookExists :: "cint \<Rightarrow> db \<Rightarrow> (error + bool) \<times> db" where
  "CheckCodebookExists cid d =
     (case sqlite3_prepare_v2 d of (r, d1) \<Rightarrow>
        if r \<noteq> SQLITE_OK
        then (Inl (runtime_error (''Prepare failed: '' @ sqlite3_errmsg d1)), d1)
        else (case sqlite3_step_query (select_one (sint cid) d1) d1 of
                (r2, d2) \<Rightarrow> (Inr (r2 = SQLITE_ROW), d2)))"

definition CreateCodebook :: "string \<Rightarrow> string \<Rightarrow> db \<Rightarrow> (error + bool) \<times> db" where
  "CreateCodebook uname name d =
     (if \<not> ValidateCodebookName name
      then (Inl (invalid_argument ''Codebook name is invalid''), d)
      else (case sqlite3_prepare_v2 d of (r, d1) \<Rightarrow>
        if r \<noteq> SQLITE_OK
        then (Inl (runtime_error (''Prepare failed: '' @ sqlite3_errmsg d1)), d1)
        else (case sqlite3_step (InsertCodebook (c_str uname) (c_str name)) d1 of
                (r2, d2) \<Rightarrow> (Inr (r2 = SQLITE_DONE), d2))))"

text \<open>
  The body of the \<open>try\<close> block of \<open>DeleteCodebook\<close>. Each failing branch rolls back
  and throws; the message is built after the rollback, from the connection as the
  rollback left it.
\<close>

definition DeleteCodebook_try :: "cint \<Rightarrow> db \<Rightarrow> (error + bool) \<times> db" where
  "DeleteCodebook_try cid d =
     (case sqlite3_prepare_v2 d of (r1, d1) \<Rightarrow>
      if r1 \<noteq> SQLITE_OK
      then (case RollbackTransaction d1 of (rb, d2) \<Rightarrow>
              (Inl (runtime_error (''Prepare failed: '' @ sqlite3_errmsg d2)), d2))
      else (case sqlite3_step (DeleteEntries (sint cid)) d1 of (r2, d2) \<Rightarrow>
      if r2 \<noteq> SQLITE_DONE
      then (case RollbackTransaction d2 of (rb, d3) \<Rightarrow>
              (Inl (runtime_error (''Delete entries failed: '' @ sqlite3_errmsg d3)), d3))
      else (case sqlite3_prepare_v2 d2 of (r3, d3) \<Rightarrow>
      if r3 \<noteq> SQLITE_OK
      then (case RollbackTransaction d3 of (rb, d4) \<Rightarrow>
              (Inl (runtime_error (''Prepare failed: '' @ sqlite3_errmsg d4)), d4))
      else (case sqlite3_step (DeleteCodebookRow (sint cid)) d3 of (r4, d4) \<Rightarrow>
      if r4 \<noteq> SQLITE_DONE
      then (case RollbackTransaction d4 of (rb, d5) \<Rightarrow>
              (Inl (runtime_error (''Delete codebook failed: '' @ sqlite3_errmsg d5)), d5))
      else (case CommitTransaction d4 of (committed, d5) \<Rightarrow>
      if \<not> committed
      then (Inl (runtime_error (''Commit failed: '' @ sqlite3_errmsg d5)), d5)
      else (Inr True, d5))))))"

definition DeleteCodebook :: "cint \<Rightarrow> db \<Rightarrow> (error + bool) \<times> db" where
  "DeleteCodebook cid d =
     (case CheckCodebookExists cid d of
        (Inl e, d1) \<Rightarrow> (Inl e, d1)
      | (Inr found, d1) \<Rightarrow>
          if \<not> found then (Inr False, d1)
          else (case BeginTransaction d1 of (began, d2) \<Rightarrow>
            if \<not> began then (Inl (runtime_error ''Failed to start transaction''), d2)
            else (case DeleteCodebook_try cid d2 of
                (Inl e, d3) \<Rightarrow> (case RollbackTransaction d3 of (rb, d4) \<Rightarrow> (Inl e, d4))
              | (Inr b, d3) \<Rightarrow> (Inr b, d3))))"



definition AddEntry ::
  "cint \<Rightarrow> string \<Rightarrow> string \<Rightarrow> string \<Rightarrow> string \<Rightarrow> db \<Rightarrow> (error + bool) \<times> db" where
  "AddEntry cid addr pk pw nt d =
     (case CheckCodebookExists cid d of
        (Inl e, d1) \<Rightarrow> (Inl e, d1)
      | (Inr found, d1) \<Rightarrow>
          if \<not> found then (Inr False, d1)
          else (case sqlite3_prepare_v2 d1 of (r, d2) \<Rightarrow>
            if r \<noteq> SQLITE_OK
            then (Inl (runtime_error (''Prepare failed: '' @ sqlite3_errmsg d2)), d2)
            else (case sqlite3_step
                         (InsertEntry (sint cid) (c_str addr) (c_str pk) (c_str pw) (c_str nt)) d2 of
                    (r2, d3) \<Rightarrow> (Inr (r2 = SQLITE_DONE), d3))))"



definition UpdateEntry ::
  "cint \<Rightarrow> string \<Rightarrow> string \<Rightarrow> string \<Rightarrow> string \<Rightarrow> db \<Rightarrow> (error + bool) \<times> db" where
  "UpdateEntry eid new_address new_public_key new_encrypted_password new_notes d =
     (if new_address = [] \<or> length new_address > 253
      then (Inl (invalid_argument ''Address must be 1-253 characters''), d)
      else if new_public_key = [] \<or> length new_public_key > 4096
      then (Inl (invalid_argument ''Public key is invalid''), d)
      else if new_encrypted_password = [] \<or> length new_encrypted_password > 512
      then (Inl (invalid_argument ''Encrypted password is invalid''), d)
      else (case sqlite3_prepare_v2 d of (r, d1) \<Rightarrow>
        if r \<noteq> SQLITE_OK
        then (Inl (runtime_error (''Prepare failed: '' @ sqlite3_errmsg d1)), d1)
        else (case sqlite3_step
                     (UpdateEntryRow (c_str new_address) (c_str new_public_key)
                        (c_str new_encrypted_password) (c_str new_notes) (sint eid)) d1 of
                (r2, d2) \<Rightarrow>
                  (let success = (r2 = SQLITE_DONE); rowsAffected = sqlite3_changes d2
                   in (Inr (success \<and> rowsAffected > 0), d2)))))"

subsection \<open>Auxiliary notions for the statements\<close>

text \<open>\<open>fails n fs\<close>: the fault script \<open>fs\<close> forces the \<open>n\<close>-th call from now to fail.
  \<open>advance c d\<close> is the connection after the call \<open>c\<close>, whatever its outcome.\<close>

definition fails :: "nat \<Rightarrow> outcome list \<Rightarrow> bool" where
  "fails n fs = (n < length fs \<and> fs ! n \<noteq> Ok)"

definition advance :: "api_call \<Rightarrow> db \<Rightarrow> db" where
  "advance c d =
     d\<lparr>errmsg := (case faults d of Fail m # fs \<Rightarrow> m | _ \<Rightarrow> ''not an error''),
       faults := tl (faults d), calls := calls d @ [c]\<rparr>"

text \<open>\<open>select_exists cid d\<close>: a codebook with the id \<open>cid\<close> is in the table.\<close>

definition select_exists :: "int \<Rightarrow> db \<Rightarrow> bool" where
  "select_exists cid d = (\<exists>r \<in> set (Codebook_tbl d). codebook_id r = cid)"

text \<open>A freshly initialised store, for the concrete runs.\<close>

definition empty_db :: db where
  "empty_db = \<lparr>Codebook_tbl = [], PasswordEntry_tbl = [], txn = None, nchanges = 0,
     errmsg = ''not an error'', now = ''2024-01-01 00:00:00'', faults = [], calls = []\<rparr>"


text \<open>A store with one codebook and five entries, created one second apart.\<close>

definition sample_db :: db where
  "sample_db =
     \<lparr>Codebook_tbl =
        [\<lparr>codebook_id = 1, username = ''alice'', codebook_name = ''work'',
          created_time = ''2024-01-01 00:00:00''\<rparr>],
      PasswordEntry_tbl =
        [\<lparr>entry_id = 1, entry_codebook_id = 1, address = ''mail.example.com'',
          public_key = ''k1'', encrypted_password = ''c1'', entry_notes = '''',
          entry_created_time = ''2024-01-01 00:00:01''\<rparr>,
         \<lparr>entry_id = 2, entry_codebook_id = 1, address = ''bank.org'',
          public_key = ''k2'', encrypted_password = ''c2'', entry_notes = '''',
          entry_created_time = ''2024-01-01 00:00:02''\<rparr>,
         \<lparr>entry_id = 3, entry_codebook_id = 1, address = ''Shop.EXAMPLE.com'',
          public_key = ''k3'', encrypted_password = ''c3'', entry_notes = '''',
          entry_created_time = ''2024-01-01 00:00:03''\<rparr>,
         \<lparr>entry_id = 4, entry_codebook_id = 1, address = ''git.dev'',
          public_key = ''k4'', encrypted_password = ''c4'', entry_notes = '''',
          entry_created_time = ''2024-01-01 00:00:04''\<rparr>,
         \<lparr>entry_id = 5, entry_codebook_id = 1, address = ''news.net'',
          public_key = ''k5'', encrypted_password = ''c5'', entry_notes = '''',
          entry_created_time = ''2024-01-01 00:00:05''\<rparr>],
      txn = None, nchanges = 0, errmsg = ''not an error'', now = ''2024-01-01 00:00:06'',
      faults = [], calls = []\<rparr>"

text \<open>The schema's uniqueness constraint on \<open>(username, codebook_name)\<close>.\<close>

definition unique_codebooks :: "db \<Rightarrow> bool" where
  "unique_codebooks d = distinct (map (\<lambda>r. (username r, codebook_name r)) (Codebook_tbl d))"



text \<open>
  The notions of the filtering claim, following the spec's words: \<open>contains s f\<close>, the
  string \<open>f\<close> occurs literally in \<open>s\<close>; \<open>contains_nocase s f\<close>, it occurs up to the
  case of ASCII letters; \<open>wildcard_free f\<close>, it holds no \<open>%\<close>, no \<open>_\<close> and no NUL.
\<close>

fun contains :: "string \<Rightarrow> string \<Rightarrow> bool" where
  "contains [] f = (f = [])"
| "contains (c # cs) f = (take (length f) (c # cs) = f \<or> contains cs f)"



text \<open>\<open>single_failure fs\<close>: the fault script forces at most one call to fail.
  \<open>begun d\<close>: the connection after the existence query and a \<open>BEGIN\<close> that took
  effect.\<close>

definition single_failure :: "outcome list \<Rightarrow> bool" where
  "single_failure fs = (length (filter (\<lambda>out. out \<noteq> Ok) fs) \<le> 1)"

definition begun :: "db \<Rightarrow> db" where
  "begun d =
     (advance (Exec BEGIN_TRANSACTION) (advance Step (advance Prepare d)))
       \<lparr>txn := Some (Codebook_tbl d, PasswordEntry_tbl d)\<rparr>"

section \<open>Properties\<close>

subsection \<open>The calls of the store\<close>

lemma attempt_eq: "attempt c d = (\<not> fails 0 (faults d), advance c d)"
  by (cases "faults d"; simp add: attempt_def advance_def fails_def split: outcome.splits)

lemma fails_tl: "fails n (tl fs) = fails (Suc n) fs"
  by (cases fs) (simp_all add: fails_def)

lemma sqlite3_step_query_eq:
  "sqlite3_step_query pending d =
     (if fails 0 (faults d) then SQLITE_ERROR
      else if pending = [] then SQLITE_DONE else SQLITE_ROW, advance Step d)"
  by (simp add: sqlite3_step_query_def attempt_eq)

lemma select_one_Nil: "(select_one cid d = []) = (\<not> select_exists cid d)"
  by (auto simp: select_one_def select_exists_def filter_empty_conv)

lemma fails_Nil: "fails n [] = False" by (simp add: fails_def)

lemma advance_simps:
  "Codebook_tbl (advance c d) = Codebook_tbl d"
  "PasswordEntry_tbl (advance c d) = PasswordEntry_tbl d"
  "txn (advance c d) = txn d"
  "now (advance c d) = now d"
  "nchanges (advance c d) = nchanges d"
  "faults (advance c d) = tl (faults d)"
  "calls (advance c d) = calls d @ [c]"
  by (simp_all add: advance_def)

subsection \<open>Validation of codebook names\<close>

lemma CreateCodebook_invalid_iff:
  "(\<exists>m. fst (CreateCodebook u n d) = Inl (invalid_argument m)) \<longleftrightarrow> \<not> ValidateCodebookName n"
  by (simp add: CreateCodebook_def sqlite3_prepare_v2_def sqlite3_step_def attempt_eq sqlite3_step_query_eq
      split: prod.splits)

lemma ValidateCodebookName_iff:
  "ValidateCodebookName n \<longleftrightarrow>
     \<not> (n = [] \<or> length n > 100 \<or>
        (\<exists>c \<in> set n. \<not> (isalnum c \<or> c = CHR '' '' \<or> c = CHR ''-'' \<or> c = CHR ''_'')))"
  by (auto simp: ValidateCodebookName_def list_all_iff)

lemma valid_example: "ValidateCodebookName ''A-B_C 1''"
  by (simp add: ValidateCodebookName_def isalnum_def)

lemma c_str_valid: "ValidateCodebookName n \<Longrightarrow> c_str n = n"
  unfolding c_str_def ValidateCodebookName_def list_all_iff
  by (rule takeWhile_eq_all_conv[THEN iffD2]) (auto simp: isalnum_def)

lemma c_str_id: "CHR 0x00 \<notin> set s \<Longrightarrow> c_str s = s"
  unfolding c_str_def by (rule takeWhile_eq_all_conv[THEN iffD2]) auto

lemma CreateCodebook_ok:
  assumes "ValidateCodebookName n" "\<not> fails 0 (faults d)" "\<not> fails 1 (faults d)"
  shows "fst (CreateCodebook u n d) = Inr True"
    and "\<exists>r \<in> set (Codebook_tbl (snd (CreateCodebook u n d))). username r = c_str u \<and> codebook_name r = n"
  using assms c_str_valid[OF assms(1)]
  by (auto simp: CreateCodebook_def sqlite3_prepare_v2_def sqlite3_step_def attempt_eq sqlite3_step_query_eq
      advance_simps fails_tl split: prod.splits)

text \<open>
  Claim C5. \<open>CreateCodebook\<close> throws \<open>invalid_argument\<close> exactly when the name is
  empty, longer than 100 characters, or holds a character that is neither alphanumeric nor
  a space, hyphen or underscore. The exception is thrown before any call of the store: the
  connection is returned as it was. The empty name and every name of 101 characters are
  refused; \<open>A-B_C 1\<close> is accepted and, when the store does not fail, the call returns
  true and the row is there.
\<close>

theorem CreateCodebook_validation:
  "((\<exists>m. fst (CreateCodebook u n d) = Inl (invalid_argument m)) \<longleftrightarrow>
      (n = [] \<or> length n > 100 \<or>
       (\<exists>c \<in> set n. \<not> (isalnum c \<or> c = CHR '' '' \<or> c = CHR ''-'' \<or> c = CHR ''_''))))
   \<and> ((\<exists>m. fst (CreateCodebook u n d) = Inl (invalid_argument m)) \<longrightarrow>
        snd (CreateCodebook u n d) = d)
   \<and> (\<exists>m. fst (CreateCodebook ''user'' '''' d) = Inl (invalid_argument m))
   \<and> (length n = 101 \<longrightarrow> (\<exists>m. fst (CreateCodebook ''user'' n d) = Inl (invalid_argument m)))
   \<and> (\<not> fails 0 (faults d) \<and> \<not> fails 1 (faults d) \<longrightarrow>
        fst (CreateCodebook ''user'' ''A-B_C 1'' d) = Inr True \<and>
        (\<exists>r \<in> set (Codebook_tbl (snd (CreateCodebook ''user'' ''A-B_C 1'' d))).
            username r = ''user'' \<and> codebook_name r = ''A-B_C 1''))"
proof -
  have a: "\<And>u n. (\<exists>m. fst (CreateCodebook u n d) = Inl (invalid_argument m)) \<longleftrightarrow>
      (n = [] \<or> length n > 100 \<or>
       (\<exists>c \<in> set n. \<not> (isalnum c \<or> c = CHR '' '' \<or> c = CHR ''-'' \<or> c = CHR ''_'')))"
    unfolding CreateCodebook_invalid_iff ValidateCodebookName_iff by blast
  have b: "(\<exists>m. fst (CreateCodebook u n d) = Inl (invalid_argument m)) \<longrightarrow>
        snd (CreateCodebook u n d) = d"
    unfolding CreateCodebook_invalid_iff by (simp add: CreateCodebook_def)
  have c: "\<exists>m. fst (CreateCodebook ''user'' '''' d) = Inl (invalid_argument m)"
    unfolding a by simp
  have e: "length n = 101 \<longrightarrow> (\<exists>m. fst (CreateCodebook ''user'' n d) = Inl (invalid_argument m))"
    unfolding a by simp
  have u: "c_str ''user'' = ''user''" by (simp add: c_str_def)
  have f: "\<not> fails 0 (faults d) \<and> \<not> fails 1 (faults d) \<longrightarrow>
        fst (CreateCodebook ''user'' ''A-B_C 1'' d) = Inr True \<and>
        (\<exists>r \<in> set (Codebook_tbl (snd (CreateCodebook ''user'' ''A-B_C 1'' d))).
            username r = ''user'' \<and> codebook_name r = ''A-B_C 1'')"
    using CreateCodebook_ok[OF valid_example, of d "''user''"] unfolding u by blast
  show ?thesis using a[of u n] b c e f by (intro conjI)
qed

theorem CreateCodebook_validation_witness:
  "fst (CreateCodebook ''user'' ''a/b'' empty_db) = Inl (invalid_argument ''Codebook name is invalid'')
   \<and> snd (CreateCodebook ''user'' ''a/b'' empty_db) = empty_db
   \<and> fst (CreateCodebook ''user'' (replicate 101 CHR ''a'') empty_db) = Inl (invalid_argument ''Codebook name is invalid'')
   \<and> fst (CreateCodebook ''user'' ''A-B_C 1'' empty_db) = Inr True"
proof -
  have i: "isalnum CHR ''a''" "\<not> isalnum CHR ''/''" by (simp_all add: isalnum_def)
  have f: "\<not> fails 0 (faults empty_db)" "\<not> fails 1 (faults empty_db)"
    by (simp_all add: empty_db_def fails_def)
  have l: "length (replicate 101 CHR ''a'') = 101" by simp
  from CreateCodebook_validation[of "''user''" "''a/b''" empty_db] i
  have 1: "\<exists>m. fst (CreateCodebook ''user'' ''a/b'' empty_db) = Inl (invalid_argument m)"
    and 2: "snd (CreateCodebook ''user'' ''a/b'' empty_db) = empty_db" by auto
  from 1 have w1: "fst (CreateCodebook ''user'' ''a/b'' empty_db) = Inl (invalid_argument ''Codebook name is invalid'')"
    by (auto simp: CreateCodebook_def split: if_splits prod.splits)
  from CreateCodebook_validation[of "''user''" "replicate 101 CHR ''a''" empty_db] l
  have 3: "\<exists>m. fst (CreateCodebook ''user'' (replicate 101 CHR ''a'') empty_db) = Inl (invalid_argument m)"
    by blast
  from 3 have w3: "fst (CreateCodebook ''user'' (replicate 101 CHR ''a'') empty_db) = Inl (invalid_argument ''Codebook name is invalid'')"
    by (auto simp: CreateCodebook_def split: if_splits prod.splits)
  from CreateCodebook_validation[of "''user''" "''a/b''" empty_db] f
  have 4: "fst (CreateCodebook ''user'' ''A-B_C 1'' empty_db) = Inr True" by blast
  show ?thesis using w1 2 w3 4 by simp
qed

subsection \<open>\<open>UpdateEntry\<close>\<close>








lemma UpdateEntry_tables:
  "Codebook_tbl (snd (UpdateEntry eid a p e n d)) = Codebook_tbl d \<and>
   txn (snd (UpdateEntry eid a p e n d)) = txn d \<and>
   (PasswordEntry_tbl (snd (UpdateEntry eid a p e n d)) = PasswordEntry_tbl d \<or>
    PasswordEntry_tbl (snd (UpdateEntry eid a p e n d)) =
      map (\<lambda>r. if entry_id r = sint eid
                then r\<lparr>address := c_str a, public_key := c_str p,
                       encrypted_password := c_str e, entry_notes := c_str n\<rparr>
                else r) (PasswordEntry_tbl d))"
  by (simp add: UpdateEntry_def sqlite3_prepare_v2_def sqlite3_step_def attempt_eq sqlite3_step_query_eq Let_def
      advance_simps split: prod.splits)

lemma distinct_filter_le1:
  "distinct (map f xs) \<Longrightarrow> length (filter (\<lambda>x. f x = k) xs) \<le> 1"
  by (induction xs) (auto simp: filter_empty_conv image_iff)

lemma changed_rows:
  "filter (\<lambda>(r, r'). r \<noteq> r') (zip xs (map (\<lambda>r. if f r = k then g r else r) xs)) =
   map (\<lambda>r. (r, g r)) (filter (\<lambda>r. f r = k \<and> r \<noteq> g r) xs)"
  by (induction xs) auto

lemma changed_rows_le1:
  assumes "distinct (map f xs)"
  shows "length (filter (\<lambda>(r, r'). r \<noteq> r') (zip xs (map (\<lambda>r. if f r = k then g r else r) xs))) \<le> 1"
proof -
  have "length (filter (\<lambda>r. f r = k \<and> r \<noteq> g r) xs) \<le> length (filter (\<lambda>r. f r = k) xs)"
    by (induction xs) auto
  with distinct_filter_le1[OF assms, of k] show ?thesis
    unfolding changed_rows by simp
qed

lemma unchanged_rows: "filter (\<lambda>(r, r'). r \<noteq> r') (zip xs xs) = []"
  by (induction xs) auto

text \<open>
  Claim C10. \<open>UpdateEntry\<close> leaves the \<open>Codebook\<close> table as it was and keeps the
  number and order of the \<open>PasswordEntry\<close> rows; every row keeps its entry id, its
  codebook id and its creation time; a row whose entry id is not the given one is unchanged;
  and, entry ids being distinct (a primary key), at most one row differs. This holds on every
  path: update done, entry not found, validation error, failure of the store.
\<close>

theorem UpdateEntry_frame:
  "Codebook_tbl (snd (UpdateEntry eid a p e n d)) = Codebook_tbl d
   \<and> length (PasswordEntry_tbl (snd (UpdateEntry eid a p e n d))) = length (PasswordEntry_tbl d)
   \<and> (\<forall>i < length (PasswordEntry_tbl d).
        entry_id (PasswordEntry_tbl (snd (UpdateEntry eid a p e n d)) ! i) =
          entry_id (PasswordEntry_tbl d ! i) \<and>
        entry_codebook_id (PasswordEntry_tbl (snd (UpdateEntry eid a p e n d)) ! i) =
          entry_codebook_id (PasswordEntry_tbl d ! i) \<and>
        entry_created_time (PasswordEntry_tbl (snd (UpdateEntry eid a p e n d)) ! i) =
          entry_created_time (PasswordEntry_tbl d ! i) \<and>
        (entry_id (PasswordEntry_tbl d ! i) \<noteq> sint eid \<longrightarrow>
           PasswordEntry_tbl (snd (UpdateEntry eid a p e n d)) ! i = PasswordEntry_tbl d ! i))
   \<and> (distinct (map entry_id (PasswordEntry_tbl d)) \<longrightarrow>
        length (filter (\<lambda>(r, r'). r \<noteq> r')
          (zip (PasswordEntry_tbl d) (PasswordEntry_tbl (snd (UpdateEntry eid a p e n d))))) \<le> 1)"
proof -
  let ?t = "PasswordEntry_tbl d" and ?t' = "PasswordEntry_tbl (snd (UpdateEntry eid a p e n d))"
  let ?g = "\<lambda>r. r\<lparr>address := c_str a, public_key := c_str p,
                       encrypted_password := c_str e, entry_notes := c_str n\<rparr>"
  from UpdateEntry_tables[of eid a p e n d]
  have cb: "Codebook_tbl (snd (UpdateEntry eid a p e n d)) = Codebook_tbl d"
    and t': "?t' = ?t \<or> ?t' = map (\<lambda>r. if entry_id r = sint eid then ?g r else r) ?t"
    by blast+
  from t' have len: "length ?t' = length ?t" by auto
  from t' have rows: "\<forall>i < length ?t.
        entry_id (?t' ! i) = entry_id (?t ! i) \<and>
        entry_codebook_id (?t' ! i) = entry_codebook_id (?t ! i) \<and>
        entry_created_time (?t' ! i) = entry_created_time (?t ! i) \<and>
        (entry_id (?t ! i) \<noteq> sint eid \<longrightarrow> ?t' ! i = ?t ! i)"
    by auto
  have one: "distinct (map entry_id ?t) \<longrightarrow>
        length (filter (\<lambda>(r, r'). r \<noteq> r') (zip ?t ?t')) \<le> 1"
  proof
    assume dist: "distinct (map entry_id ?t)"
    from t' show "length (filter (\<lambda>(r, r'). r \<noteq> r') (zip ?t ?t')) \<le> 1"
    proof
      assume "?t' = ?t"
      then show ?thesis by (simp add: unchanged_rows)
    next
      assume "?t' = map (\<lambda>r. if entry_id r = sint eid then ?g r else r) ?t"
      then show ?thesis
        using changed_rows_le1[OF dist, of "sint eid" ?g] by simp
    qed
  qed
  from cb len rows one show ?thesis by (intro conjI)
qed

theorem UpdateEntry_frame_witness:
  "Codebook_tbl (snd (UpdateEntry 3 ''x.org'' ''k'' ''c'' ''n'' sample_db)) = Codebook_tbl sample_db
   \<and> PasswordEntry_tbl (snd (UpdateEntry 3 ''x.org'' ''k'' ''c'' ''n'' sample_db)) ! 1 =
       PasswordEntry_tbl sample_db ! 1
   \<and> entry_created_time (PasswordEntry_tbl (snd (UpdateEntry 3 ''x.org'' ''k'' ''c'' ''n'' sample_db)) ! 2) =
       ''2024-01-01 00:00:03''
   \<and> length (filter (\<lambda>(r, r'). r \<noteq> r')
          (zip (PasswordEntry_tbl sample_db)
               (PasswordEntry_tbl (snd (UpdateEntry 3 ''x.org'' ''k'' ''c'' ''n'' sample_db))))) \<le> 1"
proof -
  have d: "distinct (map entry_id (PasswordEntry_tbl sample_db))"
    and l: "length (PasswordEntry_tbl sample_db) = 5"
    and i1: "entry_id (PasswordEntry_tbl sample_db ! 1) \<noteq> sint (3::cint)"
    and i2: "entry_created_time (PasswordEntry_tbl sample_db ! 2) = ''2024-01-01 00:00:03''"
    by (simp_all add: sample_db_def)
  from UpdateEntry_frame[of 3 "''x.org''" "''k''" "''c''" "''n''" sample_db] d l i1 i2
  show ?thesis by simp
qed

subsection \<open>\<open>AddEntry\<close>\<close>

lemma CheckCodebookExists_eq:
  "CheckCodebookExists cid d =
     (if fails 0 (faults d)
      then (Inl (runtime_error (''Prepare failed: '' @ errmsg (advance Prepare d))), advance Prepare d)
      else (Inr (\<not> fails 1 (faults d) \<and> select_exists (sint cid) d),
            advance Step (advance Prepare d)))"
  by (simp add: CheckCodebookExists_def sqlite3_prepare_v2_def attempt_eq sqlite3_step_query_eq sqlite3_errmsg_def
      advance_simps fails_tl select_one_Nil select_exists_def)

lemma AddEntry_absent:
  assumes "\<forall>r \<in> set (Codebook_tbl d). codebook_id r \<noteq> sint cid"
  shows "Codebook_tbl (snd (AddEntry cid a p e n d)) = Codebook_tbl d"
    and "PasswordEntry_tbl (snd (AddEntry cid a p e n d)) = PasswordEntry_tbl d"
    and "txn (snd (AddEntry cid a p e n d)) = txn d"
    and "fst (AddEntry cid a p e n d) \<noteq> Inr True"
    and "\<not> fails 0 (faults d) \<longrightarrow> fst (AddEntry cid a p e n d) = Inr False"
  using assms
  by (simp_all add: AddEntry_def CheckCodebookExists_eq select_exists_def advance_simps)

lemma AddEntry_never_invalid:
  "fst (AddEntry cid a p e n d) \<noteq> Inl (invalid_argument m)"
  by (simp add: AddEntry_def CheckCodebookExists_eq sqlite3_prepare_v2_def sqlite3_step_def
      attempt_eq sqlite3_step_query_eq split: prod.splits)

lemma AddEntry_present:
  assumes "\<exists>r \<in> set (Codebook_tbl d). codebook_id r = sint cid"
    and "\<not> fails 0 (faults d)" "\<not> fails 1 (faults d)" "\<not> fails 2 (faults d)" "\<not> fails 3 (faults d)"
  shows "fst (AddEntry cid a p e n d) = Inr True"
    and "PasswordEntry_tbl (snd (AddEntry cid a p e n d)) =
           PasswordEntry_tbl d @
             [\<lparr>entry_id = fresh_id (map entry_id (PasswordEntry_tbl d)),
               entry_codebook_id = sint cid, address = c_str a, public_key = c_str p,
               encrypted_password = c_str e, entry_notes = c_str n,
               entry_created_time = now d\<rparr>]"
  using assms
  by (simp_all add: AddEntry_def CheckCodebookExists_eq select_exists_def advance_simps
      sqlite3_prepare_v2_def sqlite3_step_def attempt_eq sqlite3_step_query_eq fails_tl numeral_2_eq_2 numeral_3_eq_3)

text \<open>
  Claim C4. When no codebook has the given id, \<open>AddEntry\<close> leaves both tables as they
  were and never returns true; it returns false whenever the existence query prepares, and
  the only exception it can throw is that preparation's own failure. \<open>AddEntry\<close> never
  throws \<open>invalid_argument\<close>, whatever the fields: when the codebook exists and the store
  does not fail, it returns true and appends a row holding the fields as given.
\<close>

theorem AddEntry_referential_guard:
  "((\<forall>r \<in> set (Codebook_tbl d). codebook_id r \<noteq> sint cid) \<longrightarrow>
      Codebook_tbl (snd (AddEntry cid a p e n d)) = Codebook_tbl d \<and>
      PasswordEntry_tbl (snd (AddEntry cid a p e n d)) = PasswordEntry_tbl d \<and>
      fst (AddEntry cid a p e n d) \<noteq> Inr True \<and>
      (\<not> fails 0 (faults d) \<longrightarrow> fst (AddEntry cid a p e n d) = Inr False))
   \<and> (\<forall>m. fst (AddEntry cid a p e n d) \<noteq> Inl (invalid_argument m))
   \<and> ((\<exists>r \<in> set (Codebook_tbl d). codebook_id r = sint cid) \<and>
       \<not> fails 0 (faults d) \<and> \<not> fails 1 (faults d) \<and> \<not> fails 2 (faults d) \<and>
       \<not> fails 3 (faults d) \<longrightarrow>
        fst (AddEntry cid a p e n d) = Inr True \<and>
        PasswordEntry_tbl (snd (AddEntry cid a p e n d)) =
           PasswordEntry_tbl d @
             [\<lparr>entry_id = fresh_id (map entry_id (PasswordEntry_tbl d)),
               entry_codebook_id = sint cid, address = c_str a, public_key = c_str p,
               encrypted_password = c_str e, entry_notes = c_str n,
               entry_created_time = now d\<rparr>])"
  using AddEntry_absent[of d cid a p e n] AddEntry_never_invalid[of cid a p e n d]
    AddEntry_present[of d cid a p e n]
  by (intro conjI impI allI) blast+

theorem AddEntry_referential_guard_witness:
  "fst (AddEntry 7 ''a.org'' ''k'' ''c'' [] sample_db) = Inr False
   \<and> PasswordEntry_tbl (snd (AddEntry 7 ''a.org'' ''k'' ''c'' [] sample_db)) =
       PasswordEntry_tbl sample_db
   \<and> fst (AddEntry 1 [] [] [] [] sample_db) = Inr True
   \<and> length (PasswordEntry_tbl (snd (AddEntry 1 [] [] [] [] sample_db))) = 6"
proof -
  have f: "\<not> fails 0 (faults sample_db)" "\<not> fails 1 (faults sample_db)"
      "\<not> fails 2 (faults sample_db)" "\<not> fails 3 (faults sample_db)"
    by (simp_all add: sample_db_def fails_def)
  have r7: "\<forall>r \<in> set (Codebook_tbl sample_db). codebook_id r \<noteq> sint (7::cint)"
    and r1: "\<exists>r \<in> set (Codebook_tbl sample_db). codebook_id r = sint (1::cint)"
    and l: "length (PasswordEntry_tbl sample_db) = 5"
    by (simp_all add: sample_db_def)
  have 1: "fst (AddEntry 7 ''a.org'' ''k'' ''c'' [] sample_db) = Inr False
      \<and> PasswordEntry_tbl (snd (AddEntry 7 ''a.org'' ''k'' ''c'' [] sample_db)) =
       PasswordEntry_tbl sample_db"
    using AddEntry_referential_guard[of sample_db 7 "''a.org''" "''k''" "''c''" "[]"] f r7
    by blast
  have 2: "fst (AddEntry 1 [] [] [] [] sample_db) = Inr True
      \<and> length (PasswordEntry_tbl (snd (AddEntry 1 [] [] [] [] sample_db))) = 6"
    using AddEntry_referential_guard[of sample_db 1 "[]" "[]" "[]" "[]"] f r1 l
    by simp
  from 1 2 show ?thesis by simp
qed

subsection \<open>\<open>CreateCodebook\<close> twice\<close>

lemma CreateCodebook_eq:
  assumes "ValidateCodebookName n" "\<not> fails 0 (faults d)" "\<not> fails 1 (faults d)"
  shows "CreateCodebook u n d =
     (Inr True, run_stmt (InsertCodebook (c_str u) n) (advance Step (advance Prepare d)))"
  using assms c_str_valid[OF assms(1)]
  by (simp add: CreateCodebook_def sqlite3_prepare_v2_def sqlite3_step_def attempt_eq sqlite3_step_query_eq
      advance_simps fails_tl)

lemma insert_codebook_count:
  assumes "distinct (map (\<lambda>r. (username r, codebook_name r)) (Codebook_tbl d))"
  shows "length (filter (\<lambda>r. username r = u \<and> codebook_name r = n)
            (Codebook_tbl (run_stmt (InsertCodebook u n) d))) = 1"
proof (cases "\<exists>r \<in> set (Codebook_tbl d). username r = u \<and> codebook_name r = n")
  case True
  then have "filter (\<lambda>r. username r = u \<and> codebook_name r = n) (Codebook_tbl d) \<noteq> []"
    by (simp add: filter_empty_conv)
  then have "1 \<le> length (filter (\<lambda>r. username r = u \<and> codebook_name r = n) (Codebook_tbl d))"
    by (cases "filter (\<lambda>r. username r = u \<and> codebook_name r = n) (Codebook_tbl d)") simp_all
  moreover have "length (filter (\<lambda>r. (username r, codebook_name r) = (u, n)) (Codebook_tbl d)) \<le> 1"
    by (rule distinct_filter_le1[OF assms])
  ultimately show ?thesis using True by simp
next
  case False
  then have "filter (\<lambda>r. username r = u \<and> codebook_name r = n) (Codebook_tbl d) = []"
    by (auto simp: filter_empty_conv)
  with False show ?thesis by simp
qed

lemma insert_codebook_again:
  "Codebook_tbl (run_stmt (InsertCodebook u n) (advance c2 (advance c1 (run_stmt (InsertCodebook u n) d)))) =
   Codebook_tbl (run_stmt (InsertCodebook u n) d)"
  by (simp add: advance_simps)

lemma insert_codebook_unique:
  assumes "unique_codebooks d"
  shows "unique_codebooks (run_stmt (InsertCodebook u n) d)"
  using assms by (auto simp: unique_codebooks_def image_iff)

lemma CreateCodebook_unique:
  assumes "unique_codebooks d"
  shows "unique_codebooks (snd (CreateCodebook u n d))"
proof -
  have adv: "\<And>c d. unique_codebooks (advance c d) = unique_codebooks d"
    by (simp add: unique_codebooks_def advance_simps)
  show ?thesis
    using assms insert_codebook_unique[of "advance Step (advance Prepare d)" "c_str u" "c_str n"]
    by (simp add: CreateCodebook_def sqlite3_prepare_v2_def sqlite3_step_def attempt_eq sqlite3_step_query_eq adv)
qed

text \<open>
  Claim C2. For a valid name, on a store that satisfies the uniqueness constraint and does
  not fail, two calls of \<open>CreateCodebook\<close> with the same owner and name both return
  true, the second call leaves both tables and the transaction state as the first left
  them, and exactly one row has that owner and name. The owner of the row is the owner as
  bound, a C string: the owner itself when it holds no NUL.
\<close>

theorem CreateCodebook_idempotent:
  assumes "ValidateCodebookName n" and "unique_codebooks d"
    and "\<not> fails 0 (faults d)" and "\<not> fails 1 (faults d)"
    and "\<not> fails 2 (faults d)" and "\<not> fails 3 (faults d)"
  shows "fst (CreateCodebook u n d) = Inr True
    \<and> fst (CreateCodebook u n (snd (CreateCodebook u n d))) = Inr True
    \<and> Codebook_tbl (snd (CreateCodebook u n (snd (CreateCodebook u n d)))) =
        Codebook_tbl (snd (CreateCodebook u n d))
    \<and> PasswordEntry_tbl (snd (CreateCodebook u n (snd (CreateCodebook u n d)))) =
        PasswordEntry_tbl (snd (CreateCodebook u n d))
    \<and> txn (snd (CreateCodebook u n (snd (CreateCodebook u n d)))) =
        txn (snd (CreateCodebook u n d))
    \<and> length (filter (\<lambda>r. username r = c_str u \<and> codebook_name r = n)
          (Codebook_tbl (snd (CreateCodebook u n (snd (CreateCodebook u n d)))))) = 1
    \<and> (CHR 0x00 \<notin> set u \<longrightarrow>
        length (filter (\<lambda>r. username r = u \<and> codebook_name r = n)
          (Codebook_tbl (snd (CreateCodebook u n (snd (CreateCodebook u n d)))))) = 1)"
proof -
  let ?d0 = "advance Step (advance Prepare d)"
  let ?d1 = "run_stmt (InsertCodebook (c_str u) n) ?d0"
  let ?d2 = "run_stmt (InsertCodebook (c_str u) n) (advance Step (advance Prepare ?d1))"
  have first: "CreateCodebook u n d = (Inr True, ?d1)"
    using assms by (simp add: CreateCodebook_eq)
  have f1: "\<not> fails 0 (faults ?d1)" "\<not> fails 1 (faults ?d1)"
    using assms(5,6) by (simp_all add: advance_simps fails_tl numeral_2_eq_2 numeral_3_eq_3)
  have second: "CreateCodebook u n ?d1 = (Inr True, ?d2)"
    using assms(1) f1 by (rule CreateCodebook_eq)
  have same: "Codebook_tbl ?d2 = Codebook_tbl ?d1" "PasswordEntry_tbl ?d2 = PasswordEntry_tbl ?d1"
      "txn ?d2 = txn ?d1"
    by (simp_all add: advance_simps)
  have "distinct (map (\<lambda>r. (username r, codebook_name r)) (Codebook_tbl ?d0))"
    using assms(2) by (simp add: unique_codebooks_def advance_simps)
  then have one: "length (filter (\<lambda>r. username r = c_str u \<and> codebook_name r = n)
      (Codebook_tbl ?d1)) = 1"
    by (rule insert_codebook_count)
  have nul: "CHR 0x00 \<notin> set u \<longrightarrow>
      length (filter (\<lambda>r. username r = u \<and> codebook_name r = n) (Codebook_tbl ?d1)) = 1"
  proof
    assume "CHR 0x00 \<notin> set u"
    then have cu: "c_str u = u" by (rule c_str_id)
    show "length (filter (\<lambda>r. username r = u \<and> codebook_name r = n) (Codebook_tbl ?d1)) = 1"
      using one unfolding cu .
  qed
  show ?thesis
    unfolding first second snd_conv fst_conv using same one nul by simp
qed

theorem CreateCodebook_idempotent_witness:
  "fst (CreateCodebook ''alice'' ''home'' sample_db) = Inr True
   \<and> fst (CreateCodebook ''alice'' ''home'' (snd (CreateCodebook ''alice'' ''home'' sample_db))) =
       Inr True
   \<and> Codebook_tbl (snd (CreateCodebook ''alice'' ''home''
          (snd (CreateCodebook ''alice'' ''home'' sample_db)))) =
       Codebook_tbl (snd (CreateCodebook ''alice'' ''home'' sample_db))
   \<and> length (filter (\<lambda>r. username r = ''alice'' \<and> codebook_name r = ''home'')
          (Codebook_tbl (snd (CreateCodebook ''alice'' ''home''
             (snd (CreateCodebook ''alice'' ''home'' sample_db)))))) = 1"
proof -
  have v: "ValidateCodebookName ''home''"
    by (simp add: ValidateCodebookName_def isalnum_def)
  have q: "unique_codebooks sample_db"
    by (simp add: unique_codebooks_def sample_db_def)
  have f: "\<not> fails 0 (faults sample_db)" "\<not> fails 1 (faults sample_db)"
      "\<not> fails 2 (faults sample_db)" "\<not> fails 3 (faults sample_db)"
    by (simp_all add: sample_db_def fails_def)
  have z: "CHR 0x00 \<notin> set ''alice''" by simp
  show ?thesis
    using CreateCodebook_idempotent[OF v q f, of "''alice''"] z by blast
qed

subsection \<open>Reading: the row loop and the ordering\<close>




lemma fetch_rows_tables:
  "Codebook_tbl (snd (fetch_rows rows d)) = Codebook_tbl d \<and>
   PasswordEntry_tbl (snd (fetch_rows rows d)) = PasswordEntry_tbl d \<and>
   txn (snd (fetch_rows rows d)) = txn d"
  by (induction rows arbitrary: d) (simp_all add: attempt_eq sqlite3_step_query_eq advance_simps split_beta)

lemma fetch_rows_prefix: "\<exists>k. fst (fetch_rows rows d) = take k rows"
proof (induction rows arbitrary: d)
  case Nil
  then show ?case by (simp add: attempt_eq sqlite3_step_query_eq)
next
  case (Cons r rows)
  show ?case
  proof (cases "fails 0 (faults d)")
    case True
    then have "fst (fetch_rows (r # rows) d) = take 0 (r # rows)" by (simp add: attempt_eq sqlite3_step_query_eq)
    then show ?thesis by blast
  next
    case False
    from Cons.IH[of "advance Step d"] obtain k
      where "fst (fetch_rows rows (advance Step d)) = take k rows" by blast
    with False have "fst (fetch_rows (r # rows) d) = take (Suc k) (r # rows)"
      by (simp add: attempt_eq sqlite3_step_query_eq split_beta)
    then show ?thesis by blast
  qed
qed



subsection \<open>\<open>GetUserCodebooks\<close>\<close>





subsection \<open>\<open>GetEntries\<close>: pagination\<close>








subsection \<open>\<open>GetEntries\<close>: the filter\<close>



lemma contains_iff: "contains s f \<longleftrightarrow> (\<exists>pre post. s = pre @ f @ post)"
proof (induction s)
  case Nil
  then show ?case by auto
next
  case (Cons c cs)
  have p: "take (length f) (c # cs) = f \<longleftrightarrow> (\<exists>post. c # cs = f @ post)"
    by (metis append_eq_conv_conj)
  show ?case
  proof
    assume "contains (c # cs) f"
    then consider "take (length f) (c # cs) = f" | "contains cs f" by auto
    then show "\<exists>pre post. c # cs = pre @ f @ post"
    proof cases
      case 1
      with p obtain post where "c # cs = [] @ f @ post" by auto
      then show ?thesis by blast
    next
      case 2
      with Cons.IH obtain pre post where "cs = pre @ f @ post" by blast
      then have "c # cs = (c # pre) @ f @ post" by simp
      then show ?thesis by blast
    qed
  next
    assume "\<exists>pre post. c # cs = pre @ f @ post"
    then obtain pre post where s: "c # cs = pre @ f @ post" by blast
    show "contains (c # cs) f"
    proof (cases pre)
      case Nil
      with s have "\<exists>post. c # cs = f @ post" by auto
      with p show ?thesis by simp
    next
      case (Cons a pre')
      with s have "cs = pre' @ f @ post" by simp
      with Cons.IH have "contains cs f" by blast
      then show ?thesis by simp
    qed
  qed
qed








subsection \<open>\<open>DeleteCodebook\<close>\<close>

lemma sqlite3_exec_eq:
  "sqlite3_exec cmd d =
     (if fails 0 (faults d) then (SQLITE_ERROR, advance (Exec cmd) d)
      else (case cmd of
          BEGIN_TRANSACTION \<Rightarrow>
            (case txn d of
               None \<Rightarrow> (SQLITE_OK,
                 (advance (Exec cmd) d)\<lparr>txn := Some (Codebook_tbl d, PasswordEntry_tbl d)\<rparr>)
             | Some snap \<Rightarrow> (SQLITE_ERROR,
                 (advance (Exec cmd) d)\<lparr>errmsg := ''cannot start a transaction within a transaction''\<rparr>))
        | COMMIT \<Rightarrow>
            (case txn d of
               None \<Rightarrow> (SQLITE_ERROR,
                 (advance (Exec cmd) d)\<lparr>errmsg := ''cannot commit - no transaction is active''\<rparr>)
             | Some snap \<Rightarrow> (SQLITE_OK, (advance (Exec cmd) d)\<lparr>txn := None\<rparr>))
        | ROLLBACK \<Rightarrow>
            (case txn d of
               None \<Rightarrow> (SQLITE_ERROR,
                 (advance (Exec cmd) d)\<lparr>errmsg := ''cannot rollback - no transaction is active''\<rparr>)
             | Some snap \<Rightarrow> (SQLITE_OK,
                 (advance (Exec cmd) d)\<lparr>Codebook_tbl := fst snap, PasswordEntry_tbl := snd snap,
                    txn := None\<rparr>))))"
  by (simp add: sqlite3_exec_def attempt_eq sqlite3_step_query_eq advance_simps split: tx_cmd.splits option.splits)

text \<open>What a rollback does to the tables and the transaction, whatever its outcome.\<close>

lemma Rollback_open:
  assumes "txn d = Some (cs, es)"
  shows "(\<not> fails 0 (faults d) \<longrightarrow>
            txn (snd (RollbackTransaction d)) = None \<and>
            Codebook_tbl (snd (RollbackTransaction d)) = cs \<and>
            PasswordEntry_tbl (snd (RollbackTransaction d)) = es)
       \<and> (fails 0 (faults d) \<longrightarrow>
            txn (snd (RollbackTransaction d)) = Some (cs, es) \<and>
            Codebook_tbl (snd (RollbackTransaction d)) = Codebook_tbl d \<and>
            PasswordEntry_tbl (snd (RollbackTransaction d)) = PasswordEntry_tbl d)"
  using assms by (simp add: RollbackTransaction_def sqlite3_exec_eq advance_simps)

lemma Rollback_closed:
  assumes "txn d = None"
  shows "txn (snd (RollbackTransaction d)) = None \<and>
         Codebook_tbl (snd (RollbackTransaction d)) = Codebook_tbl d \<and>
         PasswordEntry_tbl (snd (RollbackTransaction d)) = PasswordEntry_tbl d"
  using assms by (simp add: RollbackTransaction_def sqlite3_exec_eq advance_simps)

lemma Rollback_calls:
  "calls (snd (RollbackTransaction d)) = calls d @ [Exec ROLLBACK] \<and>
   faults (snd (RollbackTransaction d)) = tl (faults d)"
  by (simp add: RollbackTransaction_def sqlite3_exec_eq advance_simps split: option.splits)

lemma DeleteCodebook_begin_fails:
  assumes "select_exists (sint cid) d" "\<not> fails 0 (faults d)" "\<not> fails 1 (faults d)"
    and "fails 2 (faults d) \<or> txn d \<noteq> None"
  shows "fst (DeleteCodebook cid d) = Inl (runtime_error ''Failed to start transaction'')"
    and "Codebook_tbl (snd (DeleteCodebook cid d)) = Codebook_tbl d"
    and "PasswordEntry_tbl (snd (DeleteCodebook cid d)) = PasswordEntry_tbl d"
    and "txn (snd (DeleteCodebook cid d)) = txn d"
    and "calls (snd (DeleteCodebook cid d)) = calls d @ [Prepare, Step, Exec BEGIN_TRANSACTION]"
  using assms
  by (auto simp: DeleteCodebook_def CheckCodebookExists_eq BeginTransaction_def sqlite3_exec_eq
      advance_simps fails_tl numeral_2_eq_2 select_exists_def split: option.splits)

lemmas store_calls =
  sqlite3_prepare_v2_def sqlite3_step_def attempt_eq sqlite3_step_query_eq RollbackTransaction_def
  CommitTransaction_def BeginTransaction_def sqlite3_exec_eq sqlite3_errmsg_def

lemma fails_Suc_tl: "fails (Suc n) fs = fails n (tl fs)"
  by (simp add: fails_tl)

lemma DeleteCodebook_try_ok:
  assumes "txn d = Some (cs, es)"
    and "\<not> fails 0 (faults d)" "\<not> fails 1 (faults d)" "\<not> fails 2 (faults d)"
    and "\<not> fails 3 (faults d)" "\<not> fails 4 (faults d)"
  shows "fst (DeleteCodebook_try cid d) = Inr True"
    and "Codebook_tbl (snd (DeleteCodebook_try cid d)) =
           filter (\<lambda>r. codebook_id r \<noteq> sint cid) (Codebook_tbl d)"
    and "PasswordEntry_tbl (snd (DeleteCodebook_try cid d)) =
           filter (\<lambda>r. entry_codebook_id r \<noteq> sint cid) (PasswordEntry_tbl d)"
    and "txn (snd (DeleteCodebook_try cid d)) = None"
  using assms
  by (simp_all add: DeleteCodebook_try_def store_calls advance_simps fails_tl
      numeral_2_eq_2 numeral_3_eq_3 eval_nat_numeral split_beta)

lemma DeleteCodebook_try_error:
  assumes "txn d = Some (cs, es)"
    and "fails 0 (faults d) \<or> fails 1 (faults d) \<or> fails 2 (faults d) \<or>
         fails 3 (faults d) \<or> fails 4 (faults d)"
  shows "\<exists>m. fst (DeleteCodebook_try cid d) = Inl (runtime_error m)"
  using assms
  by (auto simp: DeleteCodebook_try_def store_calls advance_simps fails_tl
      numeral_2_eq_2 numeral_3_eq_3 eval_nat_numeral split_beta)

lemma DeleteCodebook_try_inv:
  assumes "txn d = Some (cs, es)"
    and "fst (DeleteCodebook_try cid d) = Inl e"
  shows "(txn (snd (DeleteCodebook_try cid d)) = None \<and>
          Codebook_tbl (snd (DeleteCodebook_try cid d)) = cs \<and>
          PasswordEntry_tbl (snd (DeleteCodebook_try cid d)) = es) \<or>
         txn (snd (DeleteCodebook_try cid d)) = Some (cs, es)"
  using assms
  by (simp add: DeleteCodebook_try_def store_calls advance_simps fails_tl
      split_beta split: if_splits)

lemma DeleteCodebook_try_calls:
  "\<exists>new. calls (snd (DeleteCodebook_try cid d)) = calls d @ new"
  by (simp add: DeleteCodebook_try_def store_calls advance_simps split_beta
      split: option.splits)

lemma begun_simps:
  "txn (begun d) = Some (Codebook_tbl d, PasswordEntry_tbl d)"
  "Codebook_tbl (begun d) = Codebook_tbl d"
  "PasswordEntry_tbl (begun d) = PasswordEntry_tbl d"
  "faults (begun d) = tl (tl (tl (faults d)))"
  "calls (begun d) = calls d @ [Prepare, Step, Exec BEGIN_TRANSACTION]"
  by (simp_all add: begun_def advance_simps)

lemma fails_begun: "fails n (faults (begun d)) = fails (n + 3) (faults d)"
  by (simp add: begun_simps fails_tl numeral_3_eq_3)

lemma DeleteCodebook_begun:
  assumes "select_exists (sint cid) d" "\<not> fails 0 (faults d)" "\<not> fails 1 (faults d)"
    and "\<not> fails 2 (faults d)" "txn d = None"
  shows "DeleteCodebook cid d =
     (case DeleteCodebook_try cid (begun d) of
        (Inl e, d3) \<Rightarrow> (Inl e, snd (RollbackTransaction d3))
      | (Inr b, d3) \<Rightarrow> (Inr b, d3))"
  using assms
  by (simp add: DeleteCodebook_def CheckCodebookExists_eq BeginTransaction_def sqlite3_exec_eq
      advance_simps fails_tl numeral_2_eq_2 begun_def split_beta split: sum.splits)

lemma single_failure_tl: "single_failure fs \<Longrightarrow> single_failure (tl fs)"
  by (cases fs) (auto simp: single_failure_def split: if_splits)

lemma single_failure_fails:
  "single_failure fs \<Longrightarrow> fails i fs \<Longrightarrow> fails j fs \<Longrightarrow> i = j"
proof (induction fs arbitrary: i j)
  case Nil
  then show ?case by (simp add: fails_def)
next
  case (Cons a fs)
  have none: "\<And>k. a \<noteq> Ok \<Longrightarrow> \<not> fails k fs"
  proof
    fix k assume a: "a \<noteq> Ok" and k: "fails k fs"
    from k have "\<exists>out \<in> set fs. out \<noteq> Ok" by (auto simp: fails_def)
    then have "filter (\<lambda>out. out \<noteq> Ok) fs \<noteq> []" by (simp add: filter_empty_conv)
    then have "0 < length (filter (\<lambda>out. out \<noteq> Ok) fs)" by simp
    with a Cons.prems(1) show False by (simp add: single_failure_def)
  qed
  have sf: "single_failure fs" using Cons.prems(1) by (rule single_failure_tl[of "a # fs", simplified])
  show ?case
  proof (cases i)
    case 0
    with Cons.prems(2) have a: "a \<noteq> Ok" by (simp add: fails_def)
    show ?thesis
    proof (cases j)
      case 0
      with \<open>i = 0\<close> show ?thesis by simp
    next
      case (Suc j')
      with Cons.prems(3) have "fails j' fs" by (simp add: fails_def)
      with none[OF a] show ?thesis by simp
    qed
  next
    case (Suc i')
    with Cons.prems(2) have i': "fails i' fs" by (simp add: fails_def)
    show ?thesis
    proof (cases j)
      case 0
      with Cons.prems(3) have "a \<noteq> Ok" by (simp add: fails_def)
      from none[OF this] i' show ?thesis by simp
    next
      case (Suc j')
      with Cons.prems(3) have "fails j' fs" by (simp add: fails_def)
      from Cons.IH[OF sf i' this] Suc \<open>i = Suc i'\<close> show ?thesis by simp
    qed
  qed
qed

lemma try_then_rollback_single:
  assumes t: "txn d = Some (cs, es)" and sf: "single_failure (faults d)"
    and e: "fst (DeleteCodebook_try cid d) = Inl e"
  shows "txn (snd (RollbackTransaction (snd (DeleteCodebook_try cid d)))) = None"
proof -
  have "fails 0 (faults d) \<or> fails 1 (faults d) \<or> fails 2 (faults d) \<or>
         fails 3 (faults d) \<or> fails 4 (faults d)"
    using DeleteCodebook_try_ok(1)[OF t, of cid] e by auto
  then obtain k where k: "fails k (faults d)" "k \<le> 4" by auto
  have others: "\<And>j. j \<noteq> k \<Longrightarrow> \<not> fails j (faults d)"
    using single_failure_fails[OF sf _ k(1)] by blast
  from k(2) consider "k = 0" | "k = 1" | "k = 2" | "k = 3" | "k = 4" by linarith
  then show ?thesis
  proof cases
    case 1
    with k others[of 1] others[of 2] t show ?thesis
      by (simp add: DeleteCodebook_try_def store_calls advance_simps fails_tl
          numeral_2_eq_2 split_beta)
  next
    case 2
    with k others[of 0] others[of 2] others[of 3] t show ?thesis
      by (simp add: DeleteCodebook_try_def store_calls advance_simps fails_tl
          numeral_2_eq_2 numeral_3_eq_3 split_beta)
  next
    case 3
    with k others[of 0] others[of 1] others[of 3] others[of 4] t show ?thesis
      by (simp add: DeleteCodebook_try_def store_calls advance_simps fails_tl
          numeral_2_eq_2 numeral_3_eq_3 eval_nat_numeral split_beta)
  next
    case 4
    with k others[of 0] others[of 1] others[of 2] others[of 4] others[of 5] t show ?thesis
      by (simp add: DeleteCodebook_try_def store_calls advance_simps fails_tl
          numeral_2_eq_2 numeral_3_eq_3 eval_nat_numeral split_beta)
  next
    case 5
    with k others[of 0] others[of 1] others[of 2] others[of 3] others[of 5] t show ?thesis
      by (simp add: DeleteCodebook_try_def store_calls advance_simps fails_tl
          numeral_2_eq_2 numeral_3_eq_3 eval_nat_numeral split_beta)
  qed
qed

lemma DeleteCodebook_success:
  assumes "select_exists (sint cid) d" "\<not> fails 0 (faults d)" "\<not> fails 1 (faults d)"
    and "\<not> fails 2 (faults d)" "txn d = None"
    and "\<not> fails 3 (faults d)" "\<not> fails 4 (faults d)" "\<not> fails 5 (faults d)"
    and "\<not> fails 6 (faults d)" "\<not> fails 7 (faults d)"
  shows "fst (DeleteCodebook cid d) = Inr True
    \<and> Codebook_tbl (snd (DeleteCodebook cid d)) =
        filter (\<lambda>r. codebook_id r \<noteq> sint cid) (Codebook_tbl d)
    \<and> PasswordEntry_tbl (snd (DeleteCodebook cid d)) =
        filter (\<lambda>r. entry_codebook_id r \<noteq> sint cid) (PasswordEntry_tbl d)
    \<and> txn (snd (DeleteCodebook cid d)) = None"
proof -
  have f: "\<not> fails 0 (faults (begun d))" "\<not> fails 1 (faults (begun d))"
      "\<not> fails 2 (faults (begun d))" "\<not> fails 3 (faults (begun d))"
      "\<not> fails 4 (faults (begun d))"
    using assms(6-10) by (simp_all add: fails_begun)
  note ok = DeleteCodebook_try_ok[OF begun_simps(1) f, of cid]
  show ?thesis
    unfolding DeleteCodebook_begun[OF assms(1-5)]
    using ok by (simp add: split_beta begun_simps)
qed

lemma DeleteCodebook_failure:
  assumes "select_exists (sint cid) d" "\<not> fails 0 (faults d)" "\<not> fails 1 (faults d)"
    and "\<not> fails 2 (faults d)" "txn d = None"
    and "fails 3 (faults d) \<or> fails 4 (faults d) \<or> fails 5 (faults d) \<or>
         fails 6 (faults d) \<or> fails 7 (faults d)"
  shows "(\<exists>m. fst (DeleteCodebook cid d) = Inl (runtime_error m))
    \<and> (\<exists>new. calls (snd (DeleteCodebook cid d)) = calls d @ new @ [Exec ROLLBACK])
    \<and> (txn (snd (DeleteCodebook cid d)) = None \<longrightarrow>
         Codebook_tbl (snd (DeleteCodebook cid d)) = Codebook_tbl d \<and>
         PasswordEntry_tbl (snd (DeleteCodebook cid d)) = PasswordEntry_tbl d)
    \<and> (single_failure (faults d) \<longrightarrow> txn (snd (DeleteCodebook cid d)) = None)"
proof -
  let ?t = "DeleteCodebook_try cid (begun d)"
  let ?cs = "Codebook_tbl d" and ?es = "PasswordEntry_tbl d"
  have t: "txn (begun d) = Some (?cs, ?es)" by (rule begun_simps)
  have "fails 0 (faults (begun d)) \<or> fails 1 (faults (begun d)) \<or>
      fails 2 (faults (begun d)) \<or> fails 3 (faults (begun d)) \<or> fails 4 (faults (begun d))"
    using assms(6) by (simp add: fails_begun)
  from DeleteCodebook_try_error[OF t this] obtain m
    where m: "fst ?t = Inl (runtime_error m)" by blast
  have R: "DeleteCodebook cid d = (Inl (runtime_error m), snd (RollbackTransaction (snd ?t)))"
    unfolding DeleteCodebook_begun[OF assms(1-5)] using m by (simp add: split_beta)
  have 1: "\<exists>m. fst (DeleteCodebook cid d) = Inl (runtime_error m)"
    unfolding R by simp
  from DeleteCodebook_try_calls[of cid "begun d"] obtain new
    where "calls (snd ?t) = calls (begun d) @ new" by blast
  then have "calls (snd (DeleteCodebook cid d)) =
      calls d @ ([Prepare, Step, Exec BEGIN_TRANSACTION] @ new) @ [Exec ROLLBACK]"
    unfolding R by (simp add: Rollback_calls begun_simps)
  then have 2: "\<exists>new. calls (snd (DeleteCodebook cid d)) = calls d @ new @ [Exec ROLLBACK]"
    by blast
  have 3: "txn (snd (DeleteCodebook cid d)) = None \<longrightarrow>
         Codebook_tbl (snd (DeleteCodebook cid d)) = Codebook_tbl d \<and>
         PasswordEntry_tbl (snd (DeleteCodebook cid d)) = PasswordEntry_tbl d"
  proof -
    from DeleteCodebook_try_inv[OF t m]
    consider "txn (snd ?t) = None \<and> Codebook_tbl (snd ?t) = ?cs \<and>
        PasswordEntry_tbl (snd ?t) = ?es" | "txn (snd ?t) = Some (?cs, ?es)" by blast
    then show ?thesis
    proof cases
      case 1
      then show ?thesis unfolding R using Rollback_closed[of "snd ?t"] by simp
    next
      case 2
      show ?thesis unfolding R using Rollback_open[OF 2] by auto
    qed
  qed
  have 4: "single_failure (faults d) \<longrightarrow> txn (snd (DeleteCodebook cid d)) = None"
  proof
    assume "single_failure (faults d)"
    then have "single_failure (faults (begun d))"
      by (simp add: begun_simps single_failure_tl)
    from try_then_rollback_single[OF t this m] show "txn (snd (DeleteCodebook cid d)) = None"
      unfolding R by simp
  qed
  from 1 2 3 4 show ?thesis by (intro conjI)
qed

text \<open>
  Claim C1, as amended. Let the codebook exist and the existence query succeed. If the
  transaction cannot be begun (the \<open>BEGIN\<close> is forced to fail, or a transaction is already
  open), \<open>DeleteCodebook\<close> throws \<open>runtime_error\<close> at once: no rollback is issued, and
  the tables and the transaction state are as before. If the transaction begins and the
  preparation or execution of either delete, or the commit, fails, it throws
  \<open>runtime_error\<close> after a \<open>ROLLBACK\<close> as its last call; once the transaction is closed
  both tables are as they were before the call, and it is closed whenever no more than
  one call is forced to fail. If nothing fails it returns true, the codebook row and all
  its entries are gone and the transaction is committed.
\<close>

theorem DeleteCodebook_atomic:
  assumes "\<exists>r \<in> set (Codebook_tbl d). codebook_id r = sint cid"
    and "\<not> fails 0 (faults d)" and "\<not> fails 1 (faults d)"
  shows
   "(fails 2 (faults d) \<or> txn d \<noteq> None \<longrightarrow>
       fst (DeleteCodebook cid d) = Inl (runtime_error ''Failed to start transaction'') \<and>
       Codebook_tbl (snd (DeleteCodebook cid d)) = Codebook_tbl d \<and>
       PasswordEntry_tbl (snd (DeleteCodebook cid d)) = PasswordEntry_tbl d \<and>
       txn (snd (DeleteCodebook cid d)) = txn d \<and>
       calls (snd (DeleteCodebook cid d)) = calls d @ [Prepare, Step, Exec BEGIN_TRANSACTION])
    \<and> (\<not> fails 2 (faults d) \<and> txn d = None \<and>
       (fails 3 (faults d) \<or> fails 4 (faults d) \<or> fails 5 (faults d) \<or>
        fails 6 (faults d) \<or> fails 7 (faults d)) \<longrightarrow>
       (\<exists>m. fst (DeleteCodebook cid d) = Inl (runtime_error m)) \<and>
       (\<exists>new. calls (snd (DeleteCodebook cid d)) = calls d @ new @ [Exec ROLLBACK]) \<and>
       (txn (snd (DeleteCodebook cid d)) = None \<longrightarrow>
          Codebook_tbl (snd (DeleteCodebook cid d)) = Codebook_tbl d \<and>
          PasswordEntry_tbl (snd (DeleteCodebook cid d)) = PasswordEntry_tbl d) \<and>
       (single_failure (faults d) \<longrightarrow> txn (snd (DeleteCodebook cid d)) = None))
    \<and> (\<not> fails 2 (faults d) \<and> txn d = None \<and>
       \<not> fails 3 (faults d) \<and> \<not> fails 4 (faults d) \<and> \<not> fails 5 (faults d) \<and>
       \<not> fails 6 (faults d) \<and> \<not> fails 7 (faults d) \<longrightarrow>
       fst (DeleteCodebook cid d) = Inr True \<and>
       Codebook_tbl (snd (DeleteCodebook cid d)) =
         filter (\<lambda>r. codebook_id r \<noteq> sint cid) (Codebook_tbl d) \<and>
       PasswordEntry_tbl (snd (DeleteCodebook cid d)) =
         filter (\<lambda>r. entry_codebook_id r \<noteq> sint cid) (PasswordEntry_tbl d) \<and>
       txn (snd (DeleteCodebook cid d)) = None)"
proof -
  from assms(1) have ex: "select_exists (sint cid) d" by (simp add: select_exists_def)
  note a = DeleteCodebook_begin_fails[OF ex assms(2,3)]
  note b = DeleteCodebook_failure[OF ex assms(2,3)]
  note c = DeleteCodebook_success[OF ex assms(2,3)]
  show ?thesis
  proof (intro conjI impI)
    assume h: "fails 2 (faults d) \<or> txn d \<noteq> None"
    show "fst (DeleteCodebook cid d) = Inl (runtime_error ''Failed to start transaction'')"
      by (rule a(1)[OF h])
    show "Codebook_tbl (snd (DeleteCodebook cid d)) = Codebook_tbl d" by (rule a(2)[OF h])
    show "PasswordEntry_tbl (snd (DeleteCodebook cid d)) = PasswordEntry_tbl d"
      by (rule a(3)[OF h])
    show "txn (snd (DeleteCodebook cid d)) = txn d" by (rule a(4)[OF h])
    show "calls (snd (DeleteCodebook cid d)) = calls d @ [Prepare, Step, Exec BEGIN_TRANSACTION]"
      by (rule a(5)[OF h])
  next
    assume h: "\<not> fails 2 (faults d) \<and> txn d = None \<and>
       (fails 3 (faults d) \<or> fails 4 (faults d) \<or> fails 5 (faults d) \<or>
        fails 6 (faults d) \<or> fails 7 (faults d))"
    then have h1: "\<not> fails 2 (faults d)" and h2: "txn d = None"
      and h3: "fails 3 (faults d) \<or> fails 4 (faults d) \<or> fails 5 (faults d) \<or>
        fails 6 (faults d) \<or> fails 7 (faults d)" by blast+
    note r = b[OF h1 h2 h3]
    from r show "\<exists>m. fst (DeleteCodebook cid d) = Inl (runtime_error m)" by blast
    from r show "\<exists>new. calls (snd (DeleteCodebook cid d)) = calls d @ new @ [Exec ROLLBACK]"
      by blast
    {
      assume "txn (snd (DeleteCodebook cid d)) = None"
      with r show "Codebook_tbl (snd (DeleteCodebook cid d)) = Codebook_tbl d" by blast
    }
    {
      assume "txn (snd (DeleteCodebook cid d)) = None"
      with r show "PasswordEntry_tbl (snd (DeleteCodebook cid d)) = PasswordEntry_tbl d"
        by blast
    }
    {
      assume "single_failure (faults d)"
      with r show "txn (snd (DeleteCodebook cid d)) = None" by blast
    }
  next
    assume h: "\<not> fails 2 (faults d) \<and> txn d = None \<and>
       \<not> fails 3 (faults d) \<and> \<not> fails 4 (faults d) \<and> \<not> fails 5 (faults d) \<and>
       \<not> fails 6 (faults d) \<and> \<not> fails 7 (faults d)"
    then have r: "fst (DeleteCodebook cid d) = Inr True
      \<and> Codebook_tbl (snd (DeleteCodebook cid d)) =
        filter (\<lambda>r. codebook_id r \<noteq> sint cid) (Codebook_tbl d)
      \<and> PasswordEntry_tbl (snd (DeleteCodebook cid d)) =
        filter (\<lambda>r. entry_codebook_id r \<noteq> sint cid) (PasswordEntry_tbl d)
      \<and> txn (snd (DeleteCodebook cid d)) = None"
      by (intro c) blast+
    from r show "fst (DeleteCodebook cid d) = Inr True" by blast
    from r show "Codebook_tbl (snd (DeleteCodebook cid d)) =
        filter (\<lambda>r. codebook_id r \<noteq> sint cid) (Codebook_tbl d)" by blast
    from r show "PasswordEntry_tbl (snd (DeleteCodebook cid d)) =
        filter (\<lambda>r. entry_codebook_id r \<noteq> sint cid) (PasswordEntry_tbl d)" by blast
    from r show "txn (snd (DeleteCodebook cid d)) = None" by blast
  qed
qed

theorem DeleteCodebook_atomic_witness:
  "(\<exists>m. fst (DeleteCodebook 1 (sample_db\<lparr>faults := [Ok, Ok, Ok, Ok, Fail ''disk I/O error'']\<rparr>)) =
        Inl (runtime_error m))
   \<and> Codebook_tbl (snd (DeleteCodebook 1
        (sample_db\<lparr>faults := [Ok, Ok, Ok, Ok, Fail ''disk I/O error'']\<rparr>))) =
       Codebook_tbl sample_db
   \<and> PasswordEntry_tbl (snd (DeleteCodebook 1
        (sample_db\<lparr>faults := [Ok, Ok, Ok, Ok, Fail ''disk I/O error'']\<rparr>))) =
       PasswordEntry_tbl sample_db
   \<and> fst (DeleteCodebook 1 sample_db) = Inr True
   \<and> Codebook_tbl (snd (DeleteCodebook 1 sample_db)) = []
   \<and> PasswordEntry_tbl (snd (DeleteCodebook 1 sample_db)) = []"
proof -
  let ?d = "sample_db\<lparr>faults := [Ok, Ok, Ok, Ok, Fail ''disk I/O error'']\<rparr>"
  have e: "\<exists>r \<in> set (Codebook_tbl ?d). codebook_id r = sint (1::cint)"
    and f: "\<not> fails 0 (faults ?d)" "\<not> fails 1 (faults ?d)" "\<not> fails 2 (faults ?d)"
      "fails 4 (faults ?d)"
    and t: "txn ?d = None" and s: "single_failure (faults ?d)"
    and tb: "Codebook_tbl ?d = Codebook_tbl sample_db"
      "PasswordEntry_tbl ?d = PasswordEntry_tbl sample_db"
    by (simp_all add: sample_db_def fails_def single_failure_def)
  have e0: "\<exists>r \<in> set (Codebook_tbl sample_db). codebook_id r = sint (1::cint)"
    and f0: "\<not> fails 0 (faults sample_db)" "\<not> fails 1 (faults sample_db)"
      "\<not> fails 2 (faults sample_db)" "\<not> fails 3 (faults sample_db)"
      "\<not> fails 4 (faults sample_db)" "\<not> fails 5 (faults sample_db)"
      "\<not> fails 6 (faults sample_db)" "\<not> fails 7 (faults sample_db)"
    and t0: "txn sample_db = None"
    and tb0: "filter (\<lambda>r. codebook_id r \<noteq> sint (1::cint)) (Codebook_tbl sample_db) = []"
      "filter (\<lambda>r. entry_codebook_id r \<noteq> sint (1::cint)) (PasswordEntry_tbl sample_db) = []"
    by (simp_all add: sample_db_def fails_def)
  from DeleteCodebook_atomic[OF e f(1,2)] f(3,4) t s tb
  have 1: "(\<exists>m. fst (DeleteCodebook 1 ?d) = Inl (runtime_error m))
      \<and> Codebook_tbl (snd (DeleteCodebook 1 ?d)) = Codebook_tbl sample_db
      \<and> PasswordEntry_tbl (snd (DeleteCodebook 1 ?d)) = PasswordEntry_tbl sample_db"
    by auto
  from DeleteCodebook_atomic[OF e0 f0(1,2)] f0 t0 tb0
  have 2: "fst (DeleteCodebook 1 sample_db) = Inr True
      \<and> Codebook_tbl (snd (DeleteCodebook 1 sample_db)) = []
      \<and> PasswordEntry_tbl (snd (DeleteCodebook 1 sample_db)) = []"
    by auto
  from 1 2 show ?thesis by blast
qed

text \<open>
  The claim as stated fails at the first of its steps: when \<open>BEGIN\<close> fails, the exception
  is thrown before the \<open>try\<close> block, and no rollback is performed.
\<close>

theorem DeleteCodebook_begin_failure_counterexample:
  "fst (DeleteCodebook 1 (sample_db\<lparr>faults := [Ok, Ok, Fail ''database is locked'']\<rparr>)) =
     Inl (runtime_error ''Failed to start transaction'')
   \<and> calls (snd (DeleteCodebook 1
        (sample_db\<lparr>faults := [Ok, Ok, Fail ''database is locked'']\<rparr>))) =
     [Prepare, Step, Exec BEGIN_TRANSACTION]"
  by (simp add: DeleteCodebook_def CheckCodebookExists_def BeginTransaction_def
      sqlite3_prepare_v2_def sqlite3_exec_def attempt_def sqlite3_step_query_def select_one_def select_exists_def sample_db_def)

text \<open>
  When every rollback fails as well, the deletes stay pending in the open transaction:
  here the entries are deleted and the codebook row is not.
\<close>

lemma DeleteCodebook_rollback_fails_example:
  "fst (DeleteCodebook 1
      (sample_db\<lparr>faults := [Ok, Ok, Ok, Ok, Ok, Fail ''io'', Fail ''io'', Fail ''io'']\<rparr>)) =
     Inl (runtime_error ''Prepare failed: io'')
   \<and> PasswordEntry_tbl (snd (DeleteCodebook 1
      (sample_db\<lparr>faults := [Ok, Ok, Ok, Ok, Ok, Fail ''io'', Fail ''io'', Fail ''io'']\<rparr>))) = []
   \<and> Codebook_tbl (snd (DeleteCodebook 1
      (sample_db\<lparr>faults := [Ok, Ok, Ok, Ok, Ok, Fail ''io'', Fail ''io'', Fail ''io'']\<rparr>))) =
     Codebook_tbl sample_db
   \<and> txn (snd (DeleteCodebook 1
      (sample_db\<lparr>faults := [Ok, Ok, Ok, Ok, Ok, Fail ''io'', Fail ''io'', Fail ''io'']\<rparr>))) =
     Some (Codebook_tbl sample_db, PasswordEntry_tbl sample_db)"
  by (simp add: DeleteCodebook_def DeleteCodebook_try_def CheckCodebookExists_def
      BeginTransaction_def RollbackTransaction_def sqlite3_prepare_v2_def sqlite3_step_def
      sqlite3_exec_def sqlite3_errmsg_def attempt_def sqlite3_step_query_def select_one_def select_exists_def sample_db_def)

subsection \<open>How failures of the store are reported\<close>













end
